theory Spec2Isabelle
  imports Complex_Main
begin

section \<open>The dive computer of \<^verbatim>\<open>diving_data.py\<close>\<close>

text \<open>
  The class \<^verbatim>\<open>DiveComputer\<close> holds five attributes and offers three kinds of methods:
  setters, the dive clock, and four derived metrics. Python's numbers are modelled as
  exact reals (the arithmetic of the formulas, without the rounding of IEEE doubles);
  \<^verbatim>\<open>None\<close> in \<^verbatim>\<open>start_time\<close> is \<open>None\<close> of an option. The clock
  \<^verbatim>\<open>time.time()\<close> is a parameter \<open>now\<close> of the two methods that read it.
  A Python exception is a value \<open>Inl e\<close> of a sum type.
\<close>

subsection \<open>State\<close>

record DiveComputer =
  fo2 :: real
  depth :: real
  start_time :: "real option"
  dive_time :: real
  ascent_rate :: real

datatype py_error = ZeroDivisionError | KeyError | IndexError

text \<open>\<^verbatim>\<open>__init__(self, fo2=0.21)\<close>\<close>

definition init :: "real \<Rightarrow> DiveComputer" where
  "init f = \<lparr>fo2 = f, depth = 0, start_time = None, dive_time = 0, ascent_rate = 0\<rparr>"

definition init_default :: DiveComputer where
  "init_default = init 0.21"

subsection \<open>Setters\<close>

definition update_ascent_rate :: "real \<Rightarrow> DiveComputer \<Rightarrow> DiveComputer" where
  "update_ascent_rate new_rate s = s\<lparr>ascent_rate := new_rate\<rparr>"

definition update_depth :: "real \<Rightarrow> DiveComputer \<Rightarrow> DiveComputer" where
  "update_depth new_depth s = s\<lparr>depth := new_depth\<rparr>"

subsection \<open>The dive clock\<close>

definition start_dive :: "real \<Rightarrow> DiveComputer \<Rightarrow> DiveComputer" where
  "start_dive now s = s\<lparr>start_time := Some now\<rparr>"

definition stop_dive :: "DiveComputer \<Rightarrow> DiveComputer" where
  "stop_dive s = s\<lparr>start_time := None\<rparr>"

definition calculate_dive_time :: "real \<Rightarrow> DiveComputer \<Rightarrow> DiveComputer" where
  "calculate_dive_time now s =
     (case start_time s of
        Some t \<Rightarrow> s\<lparr>dive_time := (now - t) / 60\<rparr>
      | None \<Rightarrow> s)"

text \<open>
  The class has no flag of its own for a running dive: the test the code makes is
  \<^verbatim>\<open>self.start_time is not None\<close>.
\<close>

definition dive_active :: "DiveComputer \<Rightarrow> bool" where
  "dive_active s = (start_time s \<noteq> None)"

subsection \<open>Oxygen partial pressure\<close>

definition calculate_PO2 :: "DiveComputer \<Rightarrow> real" where
  "calculate_PO2 s = (let p_ambient = 1 + depth s / 10; po2 = fo2 s * p_ambient in po2)"

subsection \<open>No-decompression limit\<close>

definition calculate_NDL :: "DiveComputer \<Rightarrow> int" where
  "calculate_NDL s =
     (if depth s \<le> 12 then 60
      else if depth s \<le> 18 then 50
      else if depth s \<le> 24 then 40
      else if depth s \<le> 30 then 25
      else 20)"

subsection \<open>Safe stop time\<close>

text \<open>
  The quotient \<^verbatim>\<open>(self.depth - safety_stop_depth) / self.ascent_rate\<close> raises
  \<^verbatim>\<open>ZeroDivisionError\<close> when the divisor is zero; the method does not catch it.
\<close>

definition py_div :: "real \<Rightarrow> real \<Rightarrow> py_error + real" where
  "py_div a b = (if b = 0 then Inl ZeroDivisionError else Inr (a / b))"


subsection \<open>CNS oxygen toxicity\<close>

text \<open>
  The dict \<^verbatim>\<open>cns_limits\<close> in the order it is written; a subscript
  \<^verbatim>\<open>cns_limits[k]\<close> raises \<^verbatim>\<open>KeyError\<close> on a missing key.
\<close>

definition cns_limits :: "(real \<times> real) list" where
  "cns_limits =
     [(1.0, 570), (1.1, 480), (1.2, 420), (1.3, 360),
      (1.4, 300), (1.5, 240), (1.6, 150), (1.7, 120),
      (1.8, 90), (1.9, 60), (2.0, 45), (2.1, 30),
      (2.2, 25), (2.3, 20), (2.4, 15), (2.5, 10),
      (2.6, 8), (2.7, 6), (2.8, 5), (2.9, 4), (3.0, 3)]"

definition cns_get :: "real \<Rightarrow> py_error + real" where
  "cns_get k = (case map_of cns_limits k of None \<Rightarrow> Inl KeyError | Some v \<Rightarrow> Inr v)"

definition sorted_po2_keys :: "real list" where
  "sorted_po2_keys = sort (map fst cns_limits)"

text \<open>A list subscript with a non-negative index, and the subscript \<^verbatim>\<open>[-1]\<close>.\<close>

definition py_index :: "real list \<Rightarrow> nat \<Rightarrow> py_error + real" where
  "py_index xs i = (if i < length xs then Inr (xs ! i) else Inl IndexError)"

definition py_last :: "real list \<Rightarrow> py_error + real" where
  "py_last xs = (if xs = [] then Inl IndexError else Inr (last xs))"

text \<open>
  The right-hand side of the assignment inside the loop, for the bracket that starts at
  index \<open>i\<close>. Each subscript is evaluated once here; the source repeats them, with the
  same values.
\<close>

definition interpolate :: "real list \<Rightarrow> nat \<Rightarrow> real \<Rightarrow> py_error + real" where
  "interpolate keys i po2 =
     (case py_index keys (i + 1) of Inl e \<Rightarrow> Inl e | Inr k1 \<Rightarrow>
     (case cns_get k1 of Inl e \<Rightarrow> Inl e | Inr v1 \<Rightarrow>
     (case py_index keys i of Inl e \<Rightarrow> Inl e | Inr k0 \<Rightarrow>
     (case cns_get k0 of Inl e \<Rightarrow> Inl e | Inr v0 \<Rightarrow>
     (case py_div (v1 - v0) (k1 - k0) of Inl e \<Rightarrow> Inl e | Inr slope \<Rightarrow>
        Inr (slope * (po2 - k0) + v0))))))"

text \<open>
  The loop \<^verbatim>\<open>for i in range(len(sorted_po2_keys) - 1)\<close> from index \<open>i\<close> on. It
  returns \<open>Some\<close> of the interpolated limit at the first bracket that holds \<open>po2\<close>
  (the \<^verbatim>\<open>break\<close>), and \<open>None\<close> when it runs to the end with \<^verbatim>\<open>limit_time\<close>
  still \<^verbatim>\<open>None\<close>. The chained comparison reads the second key only when the first
  comparison holds.
\<close>

function cns_loop :: "real list \<Rightarrow> real \<Rightarrow> nat \<Rightarrow> py_error + real option" where
  "cns_loop keys po2 i =
     (if i < length keys - 1 then
        (case py_index keys i of Inl e \<Rightarrow> Inl e | Inr k0 \<Rightarrow>
           if k0 \<le> po2 then
             (case py_index keys (i + 1) of Inl e \<Rightarrow> Inl e | Inr k1 \<Rightarrow>
                if po2 < k1 then
                  (case interpolate keys i po2 of Inl e \<Rightarrow> Inl e | Inr v \<Rightarrow> Inr (Some v))
                else cns_loop keys po2 (i + 1))
           else cns_loop keys po2 (i + 1))
      else Inr None)"
  by pat_completeness auto
termination
  by (relation "measure (\<lambda>(keys, po2, i). length keys - 1 - i)") auto

declare cns_loop.simps [simp del]

text \<open>The limit time: the loop, then the fallback of line 97.\<close>

definition limit_time :: "real \<Rightarrow> py_error + real" where
  "limit_time po2 =
     (case cns_loop sorted_po2_keys po2 0 of
        Inl e \<Rightarrow> Inl e
      | Inr (Some v) \<Rightarrow> Inr v
      | Inr None \<Rightarrow>
          (case py_last sorted_po2_keys of Inl e \<Rightarrow> Inl e | Inr k_hi \<Rightarrow>
             if po2 \<ge> k_hi then cns_get k_hi
             else (case py_index sorted_po2_keys 0 of Inl e \<Rightarrow> Inl e | Inr k_lo \<Rightarrow>
                     cns_get k_lo)))"

definition calculate_CNS :: "DiveComputer \<Rightarrow> py_error + real" where
  "calculate_CNS s =
     (let po2 = calculate_PO2 s in
      case limit_time po2 of
        Inl e \<Rightarrow> Inl e
      | Inr lt \<Rightarrow>
          (case py_div (dive_time s) lt of Inl e \<Rightarrow> Inl e | Inr q \<Rightarrow> Inr (q * 100)))"

section \<open>Properties\<close>

subsection \<open>Setters and the dive clock\<close>

text \<open>
  C8: for every value \<open>v\<close>, negative ones too, \<^verbatim>\<open>update_depth(v)\<close> stores exactly
  \<open>v\<close> in \<^verbatim>\<open>depth\<close> and changes nothing else: no validation, clamping, averaging or
  accumulation, and a second call overwrites the first. The same holds for
  \<^verbatim>\<open>update_ascent_rate\<close>.
\<close>

theorem setters_replace:
  "depth (update_depth v s) = v \<and>
   update_depth v s = s\<lparr>depth := v\<rparr> \<and>
   update_depth v (update_depth u s) = update_depth v s \<and>
   ascent_rate (update_ascent_rate v s) = v \<and>
   update_ascent_rate v s = s\<lparr>ascent_rate := v\<rparr> \<and>
   update_ascent_rate v (update_ascent_rate u s) = update_ascent_rate v s"
  by (simp add: update_depth_def update_ascent_rate_def)

theorem setters_replace_witness:
  "depth (update_depth (-5) (update_depth 7 (init 0.21))) = -5 \<and>
   ascent_rate (update_ascent_rate (-9) (update_ascent_rate 9 (init 0.21))) = -9"
  using setters_replace [of "-5" "update_depth 7 (init 0.21)"]
    setters_replace [of "-9" "update_ascent_rate 9 (init 0.21)"]
  by simp

text \<open>
  C7: a new session is inactive; \<^verbatim>\<open>start_dive\<close> makes it active and leaves the dive
  time alone; \<^verbatim>\<open>stop_dive\<close> makes it inactive, clears the start time and keeps the
  dive time; \<^verbatim>\<open>calculate_dive_time\<close> sets the dive time to
  \<open>(now - start_time) / 60\<close> while the dive is active and changes nothing when it is
  not; \<^verbatim>\<open>stop_dive\<close> on an inactive session changes nothing.
\<close>

theorem session_transitions:
  "\<not> dive_active (init f) \<and>
   dive_active (start_dive now s) \<and>
   dive_time (start_dive now s) = dive_time s \<and>
   \<not> dive_active (stop_dive s) \<and>
   start_time (stop_dive s) = None \<and>
   dive_time (stop_dive s) = dive_time s \<and>
   (start_time s = Some t \<longrightarrow>
      calculate_dive_time now s = s\<lparr>dive_time := (now - t) / 60\<rparr>) \<and>
   (\<not> dive_active s \<longrightarrow> calculate_dive_time now s = s) \<and>
   (\<not> dive_active s \<longrightarrow> stop_dive s = s)"
  by (simp add: dive_active_def init_def start_dive_def stop_dive_def calculate_dive_time_def)

theorem session_transitions_witness:
  "start_time (start_dive 100 (init 0.21)) = Some 100 \<and>
   dive_time (calculate_dive_time 220 (start_dive 100 (init 0.21))) = 2 \<and>
   \<not> dive_active (stop_dive (calculate_dive_time 220 (start_dive 100 (init 0.21)))) \<and>
   dive_time (calculate_dive_time 400
     (stop_dive (calculate_dive_time 220 (start_dive 100 (init 0.21))))) = 2 \<and>
   stop_dive (stop_dive (calculate_dive_time 220 (start_dive 100 (init 0.21)))) =
     stop_dive (calculate_dive_time 220 (start_dive 100 (init 0.21)))"
  using session_transitions [where s = "start_dive 100 (init 0.21)" and t = 100 and now = 220]
    session_transitions [where s = "stop_dive (calculate_dive_time 220 (start_dive 100 (init 0.21)))"
      and now = 400]
  by (simp add: dive_active_def init_def start_dive_def stop_dive_def calculate_dive_time_def)

subsection \<open>Oxygen partial pressure\<close>



subsection \<open>No-decompression limit\<close>

text \<open>
  C2: at the depths 0, 12, 12.01, 18, 24, 30 and 31 \<^verbatim>\<open>calculate_NDL\<close> returns
  60, 60, 50, 50, 40, 25 and 20: the upper bound of each band belongs to the band.
\<close>

theorem ndl_step_table:
  "calculate_NDL (update_depth 0 s) = 60 \<and>
   calculate_NDL (update_depth 12 s) = 60 \<and>
   calculate_NDL (update_depth 12.01 s) = 50 \<and>
   calculate_NDL (update_depth 18 s) = 50 \<and>
   calculate_NDL (update_depth 24 s) = 40 \<and>
   calculate_NDL (update_depth 30 s) = 25 \<and>
   calculate_NDL (update_depth 31 s) = 20"
  by (simp add: calculate_NDL_def update_depth_def)

theorem ndl_step_table_witness:
  "calculate_NDL (update_depth 12 (init 0.21)) = 60 \<and>
   calculate_NDL (update_depth 12.01 (init 0.21)) = 50"
  using ndl_step_table [of "init 0.21"] by simp

text \<open>
  C10: \<^verbatim>\<open>calculate_NDL\<close> never grows with the depth, and its result is one of
  60, 50, 40, 25, 20.
\<close>

theorem ndl_antitone_range:
  "(depth s1 \<le> depth s2 \<longrightarrow> calculate_NDL s2 \<le> calculate_NDL s1) \<and>
   calculate_NDL s1 \<in> {60, 50, 40, 25, 20}"
  by (simp add: calculate_NDL_def)

theorem ndl_antitone_range_witness:
  "depth (update_depth 12 (init 0.21)) \<le> depth (update_depth 31 (init 0.21)) \<and>
   calculate_NDL (update_depth 31 (init 0.21)) \<le> calculate_NDL (update_depth 12 (init 0.21))"
  using ndl_antitone_range [of "update_depth 12 (init 0.21)" "update_depth 31 (init 0.21)"]
  by (simp add: update_depth_def init_def)

subsection \<open>Safe stop time\<close>






subsection \<open>CNS oxygen toxicity\<close>

text \<open>
  The sorted keys are the keys of the table in the order written. The loop is
  characterised by three steps (it ends, it skips an index, it stops at a bracket); on a
  sorted list it skips every index before the bracket that holds \<open>po2\<close>, and finds no
  bracket for a \<open>po2\<close> below the first key or from the last key on.
\<close>

lemma sorted_po2_keys_eq:
  "sorted_po2_keys =
     [1.0, 1.1, 1.2, 1.3, 1.4, 1.5, 1.6, 1.7, 1.8, 1.9, 2.0,
      2.1, 2.2, 2.3, 2.4, 2.5, 2.6, 2.7, 2.8, 2.9, 3.0]"
  by (simp add: sorted_po2_keys_def cns_limits_def)

lemma sorted_po2_keys_sorted: "sorted sorted_po2_keys"
  by (simp add: sorted_po2_keys_def)

lemma sorted_po2_keys_ends:
  "sorted_po2_keys \<noteq> []" "length sorted_po2_keys = 21"
  "sorted_po2_keys ! 0 = 1" "last sorted_po2_keys = 3"
  by (simp_all add: sorted_po2_keys_eq)

lemma cns_limits_values: "(k, v) \<in> set cns_limits \<Longrightarrow> 3 \<le> v"
  by (auto simp: cns_limits_def)

lemma cns_get_key:
  assumes "k \<in> set sorted_po2_keys"
  shows "\<exists>v. cns_get k = Inr v \<and> (k, v) \<in> set cns_limits \<and> 3 \<le> v"
proof -
  from assms have "k \<in> fst ` set cns_limits"
    by (simp add: sorted_po2_keys_def)
  then obtain v where v: "map_of cns_limits k = Some v"
    by (metis map_of_eq_None_iff not_Some_eq)
  then have "(k, v) \<in> set cns_limits"
    by (rule map_of_SomeD)
  with v show ?thesis
    by (auto simp: cns_get_def dest: cns_limits_values)
qed

lemma cns_loop_end: "\<not> i < length keys - 1 \<Longrightarrow> cns_loop keys po2 i = Inr None"
  by (simp add: cns_loop.simps)

lemma cns_loop_skip:
  "i < length keys - 1 \<Longrightarrow> \<not> (keys ! i \<le> po2 \<and> po2 < keys ! (i + 1)) \<Longrightarrow>
   cns_loop keys po2 i = cns_loop keys po2 (i + 1)"
  by (subst cns_loop.simps) (auto simp: py_index_def)

lemma cns_loop_hit:
  "i < length keys - 1 \<Longrightarrow> keys ! i \<le> po2 \<Longrightarrow> po2 < keys ! (i + 1) \<Longrightarrow>
   cns_loop keys po2 i =
     (case interpolate keys i po2 of Inl e \<Rightarrow> Inl e | Inr v \<Rightarrow> Inr (Some v))"
  by (subst cns_loop.simps) (auto simp: py_index_def)

lemma cns_loop_advance:
  "sorted keys \<Longrightarrow> j < length keys - 1 \<Longrightarrow> keys ! j \<le> po2 \<Longrightarrow> i \<le> j \<Longrightarrow>
   cns_loop keys po2 i = cns_loop keys po2 j"
proof (induction "j - i" arbitrary: i)
  case 0
  then show ?case by simp
next
  case (Suc n)
  then have i: "i < j" "i < length keys - 1" by auto
  have "keys ! (i + 1) \<le> keys ! j"
    using Suc.prems i by (intro sorted_nth_mono) auto
  with Suc.prems have "\<not> po2 < keys ! (i + 1)" by simp
  with i have "cns_loop keys po2 i = cns_loop keys po2 (i + 1)"
    by (simp add: cns_loop_skip)
  moreover have "cns_loop keys po2 (i + 1) = cns_loop keys po2 j"
    using Suc i by (intro Suc.hyps(1)) auto
  ultimately show ?case by simp
qed

lemma cns_loop_no_bracket:
  "(\<And>k. i \<le> k \<Longrightarrow> k < length keys - 1 \<Longrightarrow> \<not> (keys ! k \<le> po2 \<and> po2 < keys ! (k + 1))) \<Longrightarrow>
   cns_loop keys po2 i = Inr None"
proof (induction "length keys - 1 - i" arbitrary: i)
  case 0
  then have "\<not> i < length keys - 1" by linarith
  then show ?case by (rule cns_loop_end)
next
  case (Suc n)
  then have i: "i < length keys - 1" by simp
  with Suc.prems have "cns_loop keys po2 i = cns_loop keys po2 (i + 1)"
    by (intro cns_loop_skip) auto
  also have "\<dots> = Inr None"
    using Suc.hyps(2) Suc.prems by (intro Suc.hyps(1)) auto
  finally show ?case .
qed

lemma cns_loop_below:
  assumes "sorted keys" "po2 < keys ! 0"
  shows "cns_loop keys po2 i = Inr None"
proof (rule cns_loop_no_bracket)
  fix k
  assume "k < length keys - 1"
  with assms(1) have "keys ! 0 \<le> keys ! k"
    by (intro sorted_nth_mono) auto
  with assms(2) show "\<not> (keys ! k \<le> po2 \<and> po2 < keys ! (k + 1))" by simp
qed

lemma cns_loop_above:
  assumes "sorted keys" "last keys \<le> po2"
  shows "cns_loop keys po2 i = Inr None"
proof (rule cns_loop_no_bracket)
  fix k
  assume k: "k < length keys - 1"
  then have "keys \<noteq> []" by auto
  then have "last keys = keys ! (length keys - 1)"
    by (rule last_conv_nth)
  moreover from assms(1) k have "keys ! (k + 1) \<le> keys ! (length keys - 1)"
    by (intro sorted_nth_mono) auto
  ultimately show "\<not> (keys ! k \<le> po2 \<and> po2 < keys ! (k + 1))"
    using assms(2) by simp
qed

lemma bracket_exists:
  fixes keys :: "real list"
  shows "n < length keys \<Longrightarrow> keys ! 0 \<le> po2 \<Longrightarrow> po2 < keys ! n \<Longrightarrow>
   \<exists>j<n. keys ! j \<le> po2 \<and> po2 < keys ! (j + 1)"
proof (induction n)
  case 0
  then show ?case by simp
next
  case (Suc n)
  show ?case
  proof (cases "po2 < keys ! n")
    case True
    with Suc obtain j where "j < n" "keys ! j \<le> po2 \<and> po2 < keys ! (j + 1)" by auto
    then show ?thesis by (intro exI [of _ j]) simp
  next
    case False
    with Suc.prems show ?thesis by (intro exI [of _ n]) simp
  qed
qed

lemma interpolation_bound:
  fixes k0 k1 v0 v1 x :: real
  assumes "k0 \<le> x" "x < k1" "3 \<le> v0" "3 \<le> v1"
  shows "3 \<le> (v1 - v0) / (k1 - k0) * (x - k0) + v0"
proof -
  define d where "d = k1 - k0"
  define t where "t = (x - k0) / d"
  have d: "0 < d" using assms by (simp add: d_def)
  have t: "0 \<le> t" "t \<le> 1" using assms d by (simp_all add: t_def d_def)
  have "(v1 - v0) / (k1 - k0) * (x - k0) = (v1 - v0) * t"
    by (simp add: t_def d_def)
  then have "(v1 - v0) / (k1 - k0) * (x - k0) + v0 = t * v1 + (1 - t) * v0"
    by (simp add: algebra_simps)
  also have "\<dots> \<ge> t * 3 + (1 - t) * 3"
    using t assms by (intro add_mono mult_left_mono) simp_all
  finally show ?thesis by (simp add: algebra_simps)
qed


lemma cns_get_ends: "cns_get 1 = Inr 570" "cns_get 3 = Inr 3"
  by (simp_all add: cns_get_def cns_limits_def)

lemma limit_time_low: "po2 < 1 \<Longrightarrow> limit_time po2 = Inr 570"
  using cns_loop_below [of sorted_po2_keys po2 0]
  by (simp add: limit_time_def sorted_po2_keys_sorted sorted_po2_keys_ends py_last_def
      py_index_def cns_get_ends)

lemma limit_time_high: "3 \<le> po2 \<Longrightarrow> limit_time po2 = Inr 3"
  using cns_loop_above [of sorted_po2_keys po2 0]
  by (simp add: limit_time_def sorted_po2_keys_sorted sorted_po2_keys_ends py_last_def
      cns_get_ends)

lemma limit_time_inside:
  assumes "1 \<le> po2" "po2 < 3"
  shows "\<exists>j k0 k1 v0 v1.
           j + 1 < length sorted_po2_keys \<and>
           k0 = sorted_po2_keys ! j \<and> k1 = sorted_po2_keys ! (j + 1) \<and>
           k0 \<le> po2 \<and> po2 < k1 \<and>
           (k0, v0) \<in> set cns_limits \<and> (k1, v1) \<in> set cns_limits \<and>
           3 \<le> (v1 - v0) / (k1 - k0) * (po2 - k0) + v0 \<and>
           limit_time po2 = Inr ((v1 - v0) / (k1 - k0) * (po2 - k0) + v0)"
proof -
  let ?ks = sorted_po2_keys
  have "20 < length ?ks" "?ks ! 0 \<le> po2" "po2 < ?ks ! 20"
    using assms by (simp_all add: sorted_po2_keys_eq)
  then obtain j where j: "j < 20" "?ks ! j \<le> po2" "po2 < ?ks ! (j + 1)"
    using bracket_exists [of 20 ?ks po2] by blast
  then have jl: "j < length ?ks - 1" "j < length ?ks" "j + 1 < length ?ks"
    by (simp_all add: sorted_po2_keys_ends)
  define k0 where "k0 = ?ks ! j"
  define k1 where "k1 = ?ks ! (j + 1)"
  have "k0 \<in> set ?ks" "k1 \<in> set ?ks"
    using jl by (simp_all add: k0_def k1_def del: One_nat_def)
  then obtain v0 v1 where
    v0: "cns_get k0 = Inr v0" "(k0, v0) \<in> set cns_limits" "3 \<le> v0" and
    v1: "cns_get k1 = Inr v1" "(k1, v1) \<in> set cns_limits" "3 \<le> v1"
    using cns_get_key by blast
  have k: "k0 \<le> po2" "po2 < k1"
    using j by (simp_all add: k0_def k1_def)
  let ?lt = "(v1 - v0) / (k1 - k0) * (po2 - k0) + v0"
  have "py_index ?ks j = Inr k0" "py_index ?ks (j + 1) = Inr k1"
    using jl by (simp_all add: py_index_def k0_def k1_def)
  moreover have "py_div (v1 - v0) (k1 - k0) = Inr ((v1 - v0) / (k1 - k0))"
    using k by (simp add: py_div_def)
  ultimately have interp: "interpolate ?ks j po2 = Inr ?lt"
    using v0(1) v1(1) by (simp add: interpolate_def)
  have "cns_loop ?ks po2 0 = cns_loop ?ks po2 j"
    using jl j by (intro cns_loop_advance sorted_po2_keys_sorted) simp_all
  also have "\<dots> = (case interpolate ?ks j po2 of Inl e \<Rightarrow> Inl e | Inr v \<Rightarrow> Inr (Some v))"
    using jl j by (intro cns_loop_hit) simp_all
  finally have "limit_time po2 = Inr ?lt"
    by (simp add: limit_time_def interp)
  moreover have "3 \<le> ?lt"
    using k v0(3) v1(3) by (rule interpolation_bound)
  ultimately show ?thesis
    using jl k v0(2) v1(2) unfolding k0_def k1_def by blast
qed

lemma calculate_CNS_of_limit:
  "limit_time (calculate_PO2 s) = Inr lt \<Longrightarrow> lt \<noteq> 0 \<Longrightarrow>
   calculate_CNS s = Inr (dive_time s / lt * 100)"
  by (simp add: calculate_CNS_def py_div_def)

text \<open>
  C3: when the oxygen partial pressure lies in \<open>[1, 3)\<close>, \<^verbatim>\<open>calculate_CNS\<close> finds
  two neighbouring keys \<open>po2_lo \<le> po2 < po2_hi\<close> of the sorted 21-entry table,
  interpolates the limit time linearly between their entries and returns
  \<open>dive_time / limit_time * 100\<close>; with a dive time of 1 and a partial pressure of
  exactly 1.5 the result is \<open>1 / 240 * 100\<close>.
\<close>

theorem cns_bracket_interpolation:
  "length cns_limits = 21 \<and>
   (1 \<le> calculate_PO2 s \<and> calculate_PO2 s < 3 \<longrightarrow>
      (\<exists>j po2_lo po2_hi t_lo t_hi.
         j + 1 < length sorted_po2_keys \<and>
         po2_lo = sorted_po2_keys ! j \<and> po2_hi = sorted_po2_keys ! (j + 1) \<and>
         po2_lo \<le> calculate_PO2 s \<and> calculate_PO2 s < po2_hi \<and>
         (po2_lo, t_lo) \<in> set cns_limits \<and> (po2_hi, t_hi) \<in> set cns_limits \<and>
         calculate_CNS s =
           Inr (dive_time s /
                ((t_hi - t_lo) / (po2_hi - po2_lo) * (calculate_PO2 s - po2_lo) + t_lo) * 100))) \<and>
   (calculate_PO2 s = 1.5 \<and> dive_time s = 1 \<longrightarrow> calculate_CNS s = Inr (1 / 240 * 100))"
proof (intro conjI impI)
  show "length cns_limits = 21"
    by (simp add: cns_limits_def)
next
  assume "1 \<le> calculate_PO2 s \<and> calculate_PO2 s < 3"
  then obtain j k0 k1 v0 v1 where b:
    "j + 1 < length sorted_po2_keys"
    "k0 = sorted_po2_keys ! j" "k1 = sorted_po2_keys ! (j + 1)"
    "k0 \<le> calculate_PO2 s" "calculate_PO2 s < k1"
    "(k0, v0) \<in> set cns_limits" "(k1, v1) \<in> set cns_limits"
    "3 \<le> (v1 - v0) / (k1 - k0) * (calculate_PO2 s - k0) + v0"
    "limit_time (calculate_PO2 s) = Inr ((v1 - v0) / (k1 - k0) * (calculate_PO2 s - k0) + v0)"
    using limit_time_inside [of "calculate_PO2 s"] by blast
  from b(9) b(8) have
    "calculate_CNS s =
       Inr (dive_time s / ((v1 - v0) / (k1 - k0) * (calculate_PO2 s - k0) + v0) * 100)"
    by (intro calculate_CNS_of_limit) auto
  with b(1-7) show "\<exists>j po2_lo po2_hi t_lo t_hi.
         j + 1 < length sorted_po2_keys \<and>
         po2_lo = sorted_po2_keys ! j \<and> po2_hi = sorted_po2_keys ! (j + 1) \<and>
         po2_lo \<le> calculate_PO2 s \<and> calculate_PO2 s < po2_hi \<and>
         (po2_lo, t_lo) \<in> set cns_limits \<and> (po2_hi, t_hi) \<in> set cns_limits \<and>
         calculate_CNS s =
           Inr (dive_time s /
                ((t_hi - t_lo) / (po2_hi - po2_lo) * (calculate_PO2 s - po2_lo) + t_lo) * 100)"
    by blast
next
  assume a: "calculate_PO2 s = 1.5 \<and> dive_time s = 1"
  have "limit_time 1.5 = Inr 240"
    by (simp add: limit_time_def sorted_po2_keys_eq cns_loop.simps py_index_def
        interpolate_def cns_get_def cns_limits_def py_div_def)
  with a have "limit_time (calculate_PO2 s) = Inr 240"
    by (simp only:)
  then have "calculate_CNS s = Inr (dive_time s / 240 * 100)"
    by (intro calculate_CNS_of_limit) simp_all
  with a show "calculate_CNS s = Inr (1 / 240 * 100)"
    by simp
qed

theorem cns_bracket_interpolation_witness:
  "1 \<le> calculate_PO2 (update_depth 20 (init 0.5)\<lparr>dive_time := 1\<rparr>) \<and>
   calculate_PO2 (update_depth 20 (init 0.5)\<lparr>dive_time := 1\<rparr>) < 3 \<and>
   calculate_PO2 (update_depth 20 (init 0.5)\<lparr>dive_time := 1\<rparr>) = 1.5 \<and>
   dive_time (update_depth 20 (init 0.5)\<lparr>dive_time := 1\<rparr>) = 1 \<and>
   calculate_CNS (update_depth 20 (init 0.5)\<lparr>dive_time := 1\<rparr>) = Inr (1 / 240 * 100)"
  using cns_bracket_interpolation [of "update_depth 20 (init 0.5)\<lparr>dive_time := 1\<rparr>"]
  by (simp add: calculate_PO2_def update_depth_def init_def)

text \<open>
  C4: below a partial pressure of 1 the limit time is 570, the limit at exactly 1, and
  from 3 on it is 3: nothing is extrapolated beyond the table. With the default oxygen
  fraction at the surface the partial pressure is 0.21 and the limit is the one at 1.
\<close>

theorem cns_edge_limits:
  "(calculate_PO2 s < 1 \<longrightarrow>
      limit_time (calculate_PO2 s) = Inr 570 \<and>
      calculate_CNS s = Inr (dive_time s / 570 * 100)) \<and>
   limit_time 1 = Inr 570 \<and>
   (3 \<le> calculate_PO2 s \<longrightarrow>
      limit_time (calculate_PO2 s) = Inr 3 \<and>
      calculate_CNS s = Inr (dive_time s / 3 * 100)) \<and>
   calculate_PO2 (init 0.21) = 0.21 \<and>
   limit_time (calculate_PO2 (init 0.21)) = limit_time 1"
proof (intro conjI impI)
  assume "calculate_PO2 s < 1"
  then show "limit_time (calculate_PO2 s) = Inr 570"
    by (rule limit_time_low)
  then show "calculate_CNS s = Inr (dive_time s / 570 * 100)"
    by (intro calculate_CNS_of_limit) simp_all
next
  show one: "limit_time 1 = Inr 570"
    by (simp add: limit_time_def sorted_po2_keys_eq cns_loop.simps py_index_def
        interpolate_def cns_get_def cns_limits_def py_div_def)
  show po2: "calculate_PO2 (init 0.21) = 0.21"
    by (simp add: calculate_PO2_def init_def)
  show "limit_time (calculate_PO2 (init 0.21)) = limit_time 1"
    unfolding po2 one by (rule limit_time_low) simp
next
  assume "3 \<le> calculate_PO2 s"
  then show "limit_time (calculate_PO2 s) = Inr 3"
    by (rule limit_time_high)
  then show "calculate_CNS s = Inr (dive_time s / 3 * 100)"
    by (intro calculate_CNS_of_limit) simp_all
qed

theorem cns_edge_limits_witness:
  "calculate_PO2 (init 0.21) < 1 \<and>
   limit_time (calculate_PO2 (init 0.21)) = Inr 570 \<and>
   3 \<le> calculate_PO2 (update_depth 40 (init 1)) \<and>
   limit_time (calculate_PO2 (update_depth 40 (init 1))) = Inr 3"
proof -
  have lo: "calculate_PO2 (init 0.21) < 1"
    by (simp add: calculate_PO2_def init_def)
  have hi: "3 \<le> calculate_PO2 (update_depth 40 (init 1))"
    by (simp add: calculate_PO2_def update_depth_def init_def)
  from lo cns_edge_limits [of "init 0.21"]
  have "limit_time (calculate_PO2 (init 0.21)) = Inr 570"
    by blast
  moreover from hi cns_edge_limits [of "update_depth 40 (init 1)"]
  have "limit_time (calculate_PO2 (update_depth 40 (init 1))) = Inr 3"
    by blast
  ultimately show ?thesis
    using lo hi by blast
qed

text \<open>
  C9: for every state the limit time of \<^verbatim>\<open>calculate_CNS\<close>, interpolated or from
  the fallback, is at least 3, so the division by it never raises
  \<^verbatim>\<open>ZeroDivisionError\<close> and the method returns \<open>dive_time / limit_time * 100\<close>.
\<close>

theorem cns_limit_positive:
  "\<exists>lt. limit_time (calculate_PO2 s) = Inr lt \<and> 3 \<le> lt \<and>
        calculate_CNS s = Inr (dive_time s / lt * 100) \<and>
        calculate_CNS s \<noteq> Inl ZeroDivisionError"
proof -
  let ?p = "calculate_PO2 s"
  have "\<exists>lt. limit_time ?p = Inr lt \<and> 3 \<le> lt"
  proof -
    consider "?p < 1" | "1 \<le> ?p" "?p < 3" | "3 \<le> ?p" by linarith
    then show ?thesis
    proof cases
      case 1
      then show ?thesis by (simp add: limit_time_low)
    next
      case 2
      then show ?thesis using limit_time_inside [of ?p] by blast
    next
      case 3
      then show ?thesis by (simp add: limit_time_high)
    qed
  qed
  then obtain lt where lt: "limit_time ?p = Inr lt" "3 \<le> lt" by blast
  then have "calculate_CNS s = Inr (dive_time s / lt * 100)"
    by (intro calculate_CNS_of_limit) simp_all
  with lt show ?thesis by auto
qed

theorem cns_limit_positive_witness:
  "\<exists>lt. limit_time (calculate_PO2 (update_depth 21 (init 0.5))) = Inr lt \<and> 3 \<le> lt \<and>
        calculate_CNS (update_depth 21 (init 0.5)) = Inr (dive_time (update_depth 21 (init 0.5)) / lt * 100) \<and>
        calculate_CNS (update_depth 21 (init 0.5)) \<noteq> Inl ZeroDivisionError"
  using cns_limit_positive [of "update_depth 21 (init 0.5)"] by simp

end
